theory Spec2Isabelle
  imports Main
begin

section \<open>The recording service of Very Lite Camera\<close>

text \<open>
  The installer script writes two Kotlin classes, \<open>MainActivity\<close> and
  \<open>RecordingService\<close>. This theory embeds the Kotlin text of the second installer
  (the one whose header reads "FIXED VERSION"): the fields of each class are a record,
  every method is a function from state to state, and every call into the platform
  that can throw is an input of the model.
\<close>

subsection \<open>Platform objects and calls\<close>

text \<open>
  A \<open>MediaRecorder\<close> and a \<open>Runnable\<close> are known by the order of their construction.
\<close>

type_synonym recorder = nat
type_synonym runnable = nat

text \<open>
  The platform calls of \<open>startRecording\<close> and \<open>stopRecording\<close>, in the order of the source.
  \<open>Dir_videos\<close> stands for lines 394 to 397 (\<open>getExternalFilesDir\<close>, \<open>exists\<close>, \<open>mkdirs\<close>).
\<close>

datatype call =
    Dir_videos
  | MR_new
  | MR_setAudioSource
  | MR_setVideoSource
  | MR_setOutputFormat
  | MR_setOutputFile
  | MR_setVideoEncoder
  | MR_setVideoSize
  | MR_setVideoFrameRate
  | MR_setVideoEncodingBitRate
  | MR_setAudioEncoder
  | MR_setAudioEncodingBitRate
  | MR_setAudioSamplingRate
  | MR_prepare
  | MR_start
  | Svc_startForeground
  | MR_stop
  | MR_reset
  | MR_release

text \<open>What the service lets the outside see, in order.\<close>

datatype effect =
    LogD string string
  | LogE string string
  | Foreground nat string
  | StopSelf
  | Tone nat

text \<open>
  The wall clock \<open>Date()\<close> read in the default time zone, and the inputs of one
  callback: which platform calls throw while it runs, and the wall clock. Every call
  happens at most once per callback, so a predicate on calls says all there is to say.
\<close>

record date =
  year :: nat
  month :: nat
  day :: nat
  hour :: nat
  minute :: nat
  second :: nat

record platform =
  throws :: "call \<Rightarrow> bool"
  now :: date

subsection \<open>State\<close>

text \<open>The fields of \<open>class RecordingService\<close> (lines 354 to 359).\<close>

record service =
  mediaRecorder :: "recorder option"
  toneGenerator :: "unit option"
  beepRunnable :: "runnable option"
  isRecording :: bool
  outputFile :: "string option"

text \<open>
  The service together with what it owns on the platform: the message queue of its
  \<open>handler\<close> (each message a runnable and the uptime at which it is due), the uptime clock,
  the number of runnables built so far, the recorders constructed, the recorders on which
  \<open>release()\<close> has returned (in order, with repetition), and the effects so far.
\<close>

record sys = service +
  queue :: "(runnable \<times> nat) list"
  uptime :: nat
  runnables :: nat
  created :: "recorder list"
  released :: "recorder list"
  effects :: "effect list"

definition ACTION_START_RECORDING :: string where
  "ACTION_START_RECORDING = ''START_RECORDING''"

definition ACTION_STOP_RECORDING :: string where
  "ACTION_STOP_RECORDING = ''STOP_RECORDING''"

definition NOTIFICATION_ID :: nat where
  "NOTIFICATION_ID = 1"

definition TAG :: string where
  "TAG = ''RecordingService''"

definition BEEP_INTERVAL_MS :: nat where
  "BEEP_INTERVAL_MS = 30000"

definition START_STICKY :: int where
  "START_STICKY = 1"

text \<open>A recorder is held when it was constructed and \<open>release()\<close> never returned on it.\<close>

definition held :: "sys \<Rightarrow> recorder list" where
  "held s = filter (\<lambda>h. h \<notin> set (released s)) (created s)"

definition emit :: "effect \<Rightarrow> sys \<Rightarrow> sys" where
  "emit e s = s\<lparr>effects := effects s @ [e]\<rparr>"

subsection \<open>The handler\<close>

text \<open>
  \<open>Handler.postDelayed\<close> files the message behind every message that is due no later;
  \<open>removeCallbacks\<close> drops every message of the runnable.
\<close>

fun enqueue :: "runnable \<times> nat \<Rightarrow> (runnable \<times> nat) list \<Rightarrow> (runnable \<times> nat) list" where
  "enqueue m [] = [m]"
| "enqueue m (x # xs) = (if snd m < snd x then m # x # xs else x # enqueue m xs)"

definition postDelayed :: "runnable \<Rightarrow> nat \<Rightarrow> sys \<Rightarrow> sys" where
  "postDelayed r d s = s\<lparr>queue := enqueue (r, uptime s + d) (queue s)\<rparr>"

definition removeCallbacks :: "runnable \<Rightarrow> sys \<Rightarrow> sys" where
  "removeCallbacks r s = s\<lparr>queue := filter (\<lambda>m. fst m \<noteq> r) (queue s)\<rparr>"

subsection \<open>The beep timer (lines 451 to 470)\<close>

definition playBeep :: "sys \<Rightarrow> sys" where
  "playBeep s = (case toneGenerator s of None \<Rightarrow> s | Some _ \<Rightarrow> emit (Tone (uptime s)) s)"

text \<open>The \<open>run()\<close> of the anonymous runnable: beep, then post itself again.\<close>

definition run :: "runnable \<Rightarrow> sys \<Rightarrow> sys" where
  "run this s = postDelayed this BEEP_INTERVAL_MS (playBeep s)"

definition startBeepTimer :: "sys \<Rightarrow> sys" where
  "startBeepTimer s =
     (let r = runnables s;
          s1 = s\<lparr>runnables := Suc r, beepRunnable := Some r\<rparr>
      in postDelayed r BEEP_INTERVAL_MS s1)"

definition stopBeepTimer :: "sys \<Rightarrow> sys" where
  "stopBeepTimer s =
     (let s1 = (case beepRunnable s of None \<Rightarrow> s | Some it \<Rightarrow> removeCallbacks it s)
      in s1\<lparr>beepRunnable := None\<rparr>)"

text \<open>
  One turn of the main looper: the message at the head of the queue is delivered when it
  is due (or at once when it is overdue), and its runnable runs. The callbacks of the
  service run on the same thread, so a turn never overlaps one of them. A callback takes
  no time.
\<close>

definition looper_step :: "sys \<Rightarrow> sys option" where
  "looper_step s =
     (case queue s of
        [] \<Rightarrow> None
      | (r, due) # rest \<Rightarrow> Some (run r (s\<lparr>queue := rest, uptime := max (uptime s) due\<rparr>)))"

fun ticks :: "nat \<Rightarrow> sys \<Rightarrow> sys option" where
  "ticks 0 s = Some s"
| "ticks (Suc k) s = (case looper_step s of None \<Rightarrow> None | Some s' \<Rightarrow> ticks k s')"

subsection \<open>The name of the output file (lines 393 and 398)\<close>

text \<open>
  \<open>SimpleDateFormat("yyyyMMdd_HHmmss", Locale.US)\<close>: each field in decimal, padded with
  zeros to the number of pattern letters.
\<close>

fun dec :: "nat \<Rightarrow> string" where
  "dec n = (if n < 10 then [''0123456789'' ! n]
            else dec (n div 10) @ [''0123456789'' ! (n mod 10)])"

declare dec.simps [simp del]

definition pad :: "nat \<Rightarrow> nat \<Rightarrow> string" where
  "pad w n = replicate (w - length (dec n)) (CHR ''0'') @ dec n"

definition format_yyyyMMdd_HHmmss :: "date \<Rightarrow> string" where
  "format_yyyyMMdd_HHmmss d =
     pad 4 (year d) @ pad 2 (month d) @ pad 2 (day d) @ ''_'' @
     pad 2 (hour d) @ pad 2 (minute d) @ pad 2 (second d)"

text \<open>
  The file name is a string template of the Kotlin text, and the Kotlin text is itself
  the value of a Python string literal of the installer. Both readings are modelled.

  Python, in a literal that is not raw: a backslash before a character that starts no
  escape sequence stays, with the character. Only the escapes that the installer's
  Kotlin text could meet are listed.
\<close>

definition backslash :: char where
  "backslash = CHR 0x5C"

fun py_literal :: "string \<Rightarrow> string" where
  "py_literal [] = []"
| "py_literal [c] = [c]"
| "py_literal (c # d # cs) =
     (if c = backslash then
        (if d = backslash then backslash # py_literal cs
         else if d = CHR ''n'' then CHR 0x0A # py_literal cs
         else if d = CHR ''t'' then CHR 0x09 # py_literal cs
         else if d = CHR 0x22 then CHR 0x22 # py_literal cs
         else if d = CHR 0x27 then CHR 0x27 # py_literal cs
         else c # d # py_literal cs)
      else c # py_literal (d # cs))"

text \<open>
  Kotlin, in a string literal: backslash and dollar is the character dollar; a dollar
  before an identifier is replaced by the value of that identifier.
\<close>

definition ident_start :: "char \<Rightarrow> bool" where
  "ident_start c =
     (c \<in> set ''_abcdefghijklmnopqrstuvwxyzABCDEFGHIJKLMNOPQRSTUVWXYZ'')"

definition ident_part :: "char \<Rightarrow> bool" where
  "ident_part c = (ident_start c \<or> c \<in> set ''0123456789'')"

definition kt_escape :: "char \<Rightarrow> char" where
  "kt_escape d =
     (if d = CHR ''n'' then CHR 0x0A else if d = CHR ''t'' then CHR 0x09 else d)"

function kt_template :: "(string \<Rightarrow> string) \<Rightarrow> string \<Rightarrow> string" where
  "kt_template env [] = []"
| "kt_template env [c] = [c]"
| "kt_template env (c # d # cs) =
     (if c = backslash then kt_escape d # kt_template env cs
      else if c = CHR ''$'' \<and> ident_start d then
        env (takeWhile ident_part (d # cs)) @ kt_template env (dropWhile ident_part (d # cs))
      else c # kt_template env (d # cs))"
  by pat_completeness auto
termination
  by (relation "measure (\<lambda>(env, cs). length cs)")
     (auto intro: le_imp_less_Suc le_SucI length_dropWhile_le)

declare kt_template.simps [simp del]

text \<open>
  Line 398 as the installer holds it, after the quote of \<open>File(videoDir, "...")\<close>:
  \<open>VID_\<close>, a backslash, \<open>$timestamp.mp4\<close>. The only name in scope is \<open>timestamp\<close>.
\<close>

definition line_398 :: string where
  "line_398 = ''VID_'' @ [backslash] @ ''$timestamp.mp4''"

definition scope :: "string \<Rightarrow> string \<Rightarrow> string" where
  "scope timestamp x = (if x = ''timestamp'' then timestamp else [])"

definition outputFile_name :: "date \<Rightarrow> string" where
  "outputFile_name d = kt_template (scope (format_yyyyMMdd_HHmmss d)) (py_literal line_398)"

subsection \<open>\<open>stopRecording\<close> (lines 435 to 449)\<close>

text \<open>
  Everything is inside one \<open>try\<close>: a call that throws skips the rest of the block, and
  the \<open>catch\<close> only logs.
\<close>

definition stopRecording :: "platform \<Rightarrow> sys \<Rightarrow> sys" where
  "stopRecording p s =
     (let s1 = stopBeepTimer s;
          failed = emit (LogE TAG ''Error stopping recording'') s1;
          done = (\<lambda>s2. emit (LogD TAG ''Recording stopped'')
                    (s2\<lparr>mediaRecorder := None, isRecording := False\<rparr>))
      in case mediaRecorder s1 of
           None \<Rightarrow> done s1
         | Some h \<Rightarrow>
             if throws p MR_stop then failed
             else if throws p MR_reset then failed
             else if throws p MR_release then failed
             else done (s1\<lparr>released := released s1 @ [h]\<rparr>))"

subsection \<open>\<open>startRecording\<close> (lines 391 to 433)\<close>

text \<open>The calls inside \<open>mediaRecorder?.apply { ... }\<close>, lines 408 to 420.\<close>

definition apply_calls :: "call list" where
  "apply_calls =
     [MR_setAudioSource, MR_setVideoSource, MR_setOutputFormat, MR_setOutputFile,
      MR_setVideoEncoder, MR_setVideoSize, MR_setVideoFrameRate,
      MR_setVideoEncodingBitRate, MR_setAudioEncoder, MR_setAudioEncodingBitRate,
      MR_setAudioSamplingRate, MR_prepare, MR_start]"

text \<open>
  The \<open>try\<close> block: the state where it ends, and whether it ended by an exception.
\<close>

definition startRecording_try :: "platform \<Rightarrow> sys \<Rightarrow> sys \<times> bool" where
  "startRecording_try p s =
     (if throws p Dir_videos then (s, True)
      else let s1 = s\<lparr>outputFile := Some (outputFile_name (now p))\<rparr> in
      if throws p MR_new then (s1, True)
      else let h = length (created s1);
               s2 = s1\<lparr>created := created s1 @ [h], mediaRecorder := Some h\<rparr> in
      if list_ex (throws p) apply_calls then (s2, True)
      else let s3 = startBeepTimer (s2\<lparr>isRecording := True\<rparr>) in
      if throws p Svc_startForeground then (s3, True)
      else (emit (LogD TAG ''Recording started'')
              (emit (Foreground NOTIFICATION_ID ''Recording...'') s3), False))"

definition startRecording :: "platform \<Rightarrow> sys \<Rightarrow> sys" where
  "startRecording p s =
     (case startRecording_try p s of
        (s', False) \<Rightarrow> s'
      | (s', True) \<Rightarrow> stopRecording p (emit (LogE TAG ''Error starting recording'') s'))"

subsection \<open>The callbacks of the service\<close>

text \<open>
  An intent is \<open>None\<close> when it is null, and holds its action otherwise, itself nullable.
\<close>

type_synonym intent = "string option option"

definition action :: "intent \<Rightarrow> string option" where
  "action i = (case i of None \<Rightarrow> None | Some a \<Rightarrow> a)"

definition onStartCommand :: "intent \<Rightarrow> platform \<Rightarrow> sys \<Rightarrow> sys \<times> int" where
  "onStartCommand i p s =
     (if action i = Some ACTION_START_RECORDING then
        ((if \<not> isRecording s then startRecording p s else s), START_STICKY)
      else if action i = Some ACTION_STOP_RECORDING then
        (emit StopSelf (stopRecording p s), START_STICKY)
      else (s, START_STICKY))"

text \<open>A fresh instance after \<open>onCreate\<close> (lines 370 to 374), on an idle platform.\<close>

definition fresh :: sys where
  "fresh = \<lparr>mediaRecorder = None, toneGenerator = Some (), beepRunnable = None,
            isRecording = False, outputFile = None,
            queue = [], uptime = 0, runnables = 0, created = [], released = [],
            effects = []\<rparr>"

text \<open>
  The states the service can be in: a fresh instance, then any commands, with any
  outcome of the platform calls, and any turns of the looper.
\<close>

inductive reachable :: "sys \<Rightarrow> bool" where
  reach_fresh: "reachable fresh"
| reach_command: "reachable s \<Longrightarrow> reachable (fst (onStartCommand i p s))"
| reach_tick: "reachable s \<Longrightarrow> looper_step s = Some s' \<Longrightarrow> reachable s'"

fun commands :: "(intent \<times> platform) list \<Rightarrow> sys \<Rightarrow> sys" where
  "commands [] s = s"
| "commands ((i, p) # cs) s = commands cs (fst (onStartCommand i p s))"

text \<open>
  What holds of the timer between callbacks: the handler's queue holds one message of
  the current runnable, or nothing when there is none, and a runnable exists only while
  \<open>isRecording\<close> is set.
\<close>

definition timer_inv :: "sys \<Rightarrow> bool" where
  "timer_inv s =
     (map fst (queue s) = (case beepRunnable s of None \<Rightarrow> [] | Some r \<Rightarrow> [r]) \<and>
      (isRecording s \<or> beepRunnable s = None))"

definition is_tone :: "effect \<Rightarrow> bool" where
  "is_tone e = (case e of Tone _ \<Rightarrow> True | _ \<Rightarrow> False)"

subsection \<open>\<open>MainActivity\<close> (lines 212 to 326)\<close>

text \<open>
  The fields of the activity that the claims touch, and what it does to the outside: the
  actions of the intents it hands to the service, its toasts, the calls of
  \<open>allPermissionsGranted()\<close>, the calls of \<open>checkSelfPermission\<close>, and the calls of
  \<open>requestPermissions\<close>. The field \<open>isRecording\<close> of the activity is \<open>isRecordingA\<close> here;
  the label of the button is left out.
\<close>

record activity =
  isRecordingA :: bool
  btnRecord_listener :: bool
  tvStatus :: string
  recordingIndicator :: bool
  finishing :: bool
  sent :: "string list"
  toasts :: "string list"
  gate_queries :: nat
  checks :: "string list"
  permission_requests :: nat

definition REQUEST_CODE_PERMISSIONS :: int where
  "REQUEST_CODE_PERMISSIONS = 10"

definition REQUIRED_PERMISSIONS :: "string list" where
  "REQUIRED_PERMISSIONS =
     [''android.permission.CAMERA'', ''android.permission.RECORD_AUDIO'',
      ''android.permission.WRITE_EXTERNAL_STORAGE'',
      ''android.permission.READ_EXTERNAL_STORAGE'']"

text \<open>\<open>Array.all\<close> stops at the first permission that is not granted.\<close>

fun all_checked :: "(string \<Rightarrow> bool) \<Rightarrow> string list \<Rightarrow> activity \<Rightarrow> bool \<times> activity" where
  "all_checked g [] a = (True, a)"
| "all_checked g (x # xs) a =
     (let a1 = a\<lparr>checks := checks a @ [x]\<rparr>
      in if g x then all_checked g xs a1 else (False, a1))"

definition allPermissionsGranted :: "(string \<Rightarrow> bool) \<Rightarrow> activity \<Rightarrow> bool \<times> activity" where
  "allPermissionsGranted g a =
     all_checked g REQUIRED_PERMISSIONS (a\<lparr>gate_queries := Suc (gate_queries a)\<rparr>)"

definition toast :: "string \<Rightarrow> activity \<Rightarrow> activity" where
  "toast t a = a\<lparr>toasts := toasts a @ [t]\<rparr>"

definition updateRecordingStatus :: "bool \<Rightarrow> activity \<Rightarrow> activity" where
  "updateRecordingStatus recording a =
     (if recording then a\<lparr>tvStatus := ''Recording...'', recordingIndicator := True\<rparr>
      else a\<lparr>tvStatus := ''Ready to record'', recordingIndicator := False\<rparr>)"

definition MainActivity_startRecording :: "activity \<Rightarrow> activity" where
  "MainActivity_startRecording a =
     toast ''Recording started''
       (updateRecordingStatus True
          (a\<lparr>sent := sent a @ [ACTION_START_RECORDING], isRecordingA := True\<rparr>))"

definition MainActivity_stopRecording :: "activity \<Rightarrow> activity" where
  "MainActivity_stopRecording a =
     toast ''Recording stopped''
       (updateRecordingStatus False
          (a\<lparr>sent := sent a @ [ACTION_STOP_RECORDING], isRecordingA := False\<rparr>))"

definition setupUI :: "activity \<Rightarrow> activity" where
  "setupUI a = (updateRecordingStatus False a)\<lparr>btnRecord_listener := True\<rparr>"

text \<open>A press of the record button: the listener of \<open>setupUI\<close> runs, when there is one.\<close>

definition btnRecord_click :: "activity \<Rightarrow> activity" where
  "btnRecord_click a =
     (if btnRecord_listener a then
        (if isRecordingA a then MainActivity_stopRecording a
         else MainActivity_startRecording a)
      else a)"

definition MainActivity_onCreate :: "(string \<Rightarrow> bool) \<Rightarrow> activity \<Rightarrow> activity" where
  "MainActivity_onCreate g a =
     (case allPermissionsGranted g a of
        (True, a1) \<Rightarrow> setupUI a1
      | (False, a1) \<Rightarrow> a1\<lparr>permission_requests := Suc (permission_requests a1)\<rparr>)"

definition onRequestPermissionsResult :: "int \<Rightarrow> (string \<Rightarrow> bool) \<Rightarrow> activity \<Rightarrow> activity" where
  "onRequestPermissionsResult requestCode g a =
     (if requestCode = REQUEST_CODE_PERMISSIONS then
        (case allPermissionsGranted g a of
           (True, a1) \<Rightarrow> setupUI a1
         | (False, a1) \<Rightarrow> (toast ''Permissions required'' a1)\<lparr>finishing := True\<rparr>)
      else a)"

definition new_activity :: activity where
  "new_activity = \<lparr>isRecordingA = False, btnRecord_listener = False, tvStatus = [],
                    recordingIndicator = False, finishing = False, sent = [], toasts = [],
                    gate_queries = 0, checks = [], permission_requests = 0\<rparr>"

subsection \<open>Concrete inputs\<close>

definition date0 :: date where
  "date0 = \<lparr>year = 2024, month = 1, day = 2, hour = 3, minute = 4, second = 5\<rparr>"

definition all_succeed :: platform where
  "all_succeed = \<lparr>throws = (\<lambda>c. False), now = date0\<rparr>"

definition stop_throws :: platform where
  "stop_throws = \<lparr>throws = (\<lambda>c. c = MR_stop), now = date0\<rparr>"

definition prepare_and_stop_throw :: platform where
  "prepare_and_stop_throw = \<lparr>throws = (\<lambda>c. c = MR_prepare \<or> c = MR_stop), now = date0\<rparr>"

definition Start :: intent where
  "Start = Some (Some ACTION_START_RECORDING)"

definition Stop :: intent where
  "Stop = Some (Some ACTION_STOP_RECORDING)"

definition active0 :: sys where
  "active0 = fst (onStartCommand Start all_succeed fresh)"

definition all_granted :: "string \<Rightarrow> bool" where
  "all_granted x = True"

definition no_audio :: "string \<Rightarrow> bool" where
  "no_audio x = (x \<noteq> ''android.permission.RECORD_AUDIO'')"

section \<open>The timer between callbacks\<close>

text \<open>
  \<open>stopRecording\<close> cancels the timer before anything else, \<open>startRecording\<close> arms it only
  after setting \<open>isRecording\<close>, and a tick posts its own runnable again: so the queue never
  holds a message of a runnable other than the current one.
\<close>

lemma stopBeepTimer_inv:
  "timer_inv s \<Longrightarrow> queue (stopBeepTimer s) = [] \<and> beepRunnable (stopBeepTimer s) = None"
  by (cases "queue s") (auto simp: timer_inv_def stopBeepTimer_def removeCallbacks_def split: option.splits)

lemma stopRecording_timer:
  "timer_inv s \<Longrightarrow> queue (stopRecording p s) = [] \<and> beepRunnable (stopRecording p s) = None"
  using stopBeepTimer_inv [of s]
  by (auto simp: stopRecording_def Let_def emit_def split: option.splits)

lemma emit_timer [simp]:
  "queue (emit e s) = queue s" "beepRunnable (emit e s) = beepRunnable s"
  "isRecording (emit e s) = isRecording s" "timer_inv (emit e s) = timer_inv s"
  by (simp_all add: emit_def timer_inv_def)

lemma stopRecording_inv: "timer_inv s \<Longrightarrow> timer_inv (stopRecording p s)"
  using stopRecording_timer [of s p] by (simp add: timer_inv_def)

lemma startRecording_try_inv:
  assumes "timer_inv s" "\<not> isRecording s"
  shows "timer_inv (fst (startRecording_try p s))"
  using assms
  by (auto simp: startRecording_try_def Let_def timer_inv_def startBeepTimer_def postDelayed_def emit_def)

lemma startRecording_inv:
  assumes "timer_inv s" "\<not> isRecording s"
  shows "timer_inv (startRecording p s)"
proof (cases "startRecording_try p s")
  case (Pair s' b)
  with startRecording_try_inv [OF assms, of p] have "timer_inv s'" by simp
  with Pair show ?thesis
    by (cases b) (simp_all add: startRecording_def stopRecording_inv)
qed

lemma onStartCommand_inv: "timer_inv s \<Longrightarrow> timer_inv (fst (onStartCommand i p s))"
  by (simp add: onStartCommand_def startRecording_inv stopRecording_inv)

lemma looper_step_inv:
  assumes "timer_inv s" "looper_step s = Some s'"
  shows "timer_inv s'"
  using assms
  by (auto simp: looper_step_def timer_inv_def run_def postDelayed_def playBeep_def emit_def
           split: list.splits option.splits)

lemma fresh_inv: "timer_inv fresh"
  by (simp add: timer_inv_def fresh_def)

lemma reachable_inv: "reachable s \<Longrightarrow> timer_inv s"
  by (induction rule: reachable.induct)
     (simp_all add: fresh_inv onStartCommand_inv looper_step_inv)

lemma stopRecording_tones:
  "filter is_tone (effects (stopRecording p s)) = filter is_tone (effects s)"
  by (auto simp: stopRecording_def Let_def emit_def stopBeepTimer_def removeCallbacks_def is_tone_def
           split: option.splits)

lemma emit_fields:
  "mediaRecorder (emit e s) = mediaRecorder s" "created (emit e s) = created s"
  "released (emit e s) = released s" "held (emit e s) = held s"
  by (simp_all add: emit_def held_def)

lemma idle_stopRecording:
  assumes "timer_inv s" "mediaRecorder s = None" "\<not> isRecording s"
  shows "stopRecording p s = emit (LogD TAG ''Recording stopped'') s"
proof -
  from assms have b: "beepRunnable s = None" and q: "queue s = []"
    by (auto simp: timer_inv_def)
  have "stopBeepTimer s = s" using b q by (simp add: stopBeepTimer_def)
  moreover have "s\<lparr>mediaRecorder := None, isRecording := False\<rparr> = s"
    using assms by simp
  ultimately show ?thesis using assms(2)
    by (simp add: stopRecording_def Let_def)
qed

section \<open>The model at concrete inputs\<close>

text \<open>
  The name of the output file does not depend on the wall clock: the backslash of line 398
  makes the dollar an ordinary character, so \<open>timestamp\<close> is never looked up.
\<close>

lemma outputFile_name_constant: "outputFile_name d = ''VID_$timestamp.mp4''"
  by (simp add: outputFile_name_def line_398_def kt_template.simps backslash_def kt_escape_def)

lemma start_all_succeed:
  "startRecording all_succeed fresh =
     \<lparr>mediaRecorder = Some 0, toneGenerator = Some (), beepRunnable = Some 0,
      isRecording = True, outputFile = Some ''VID_$timestamp.mp4'',
      queue = [(0, 30000)], uptime = 0, runnables = 1, created = [0], released = [],
      effects = [Foreground 1 ''Recording...'', LogD ''RecordingService'' ''Recording started'']\<rparr>"
  by (simp add: startRecording_def startRecording_try_def all_succeed_def fresh_def
        outputFile_name_constant apply_calls_def startBeepTimer_def postDelayed_def emit_def
        BEEP_INTERVAL_MS_def NOTIFICATION_ID_def TAG_def Let_def)

lemma active0_eval:
  "active0 =
     \<lparr>mediaRecorder = Some 0, toneGenerator = Some (), beepRunnable = Some 0,
      isRecording = True, outputFile = Some ''VID_$timestamp.mp4'',
      queue = [(0, 30000)], uptime = 0, runnables = 1, created = [0], released = [],
      effects = [Foreground 1 ''Recording...'', LogD ''RecordingService'' ''Recording started'']\<rparr>"
  unfolding active0_def onStartCommand_def Start_def action_def
  by (simp add: start_all_succeed) (simp add: fresh_def)

text \<open>
  The first installer writes the same line without the backslash; there the template is
  filled in.
\<close>

lemma first_installer_name:
  "kt_template (scope ts) (py_literal ''VID_$timestamp.mp4'') = ''VID_'' @ ts @ ''.mp4''"
  by (simp add: kt_template.simps backslash_def ident_start_def ident_part_def scope_def)

lemma dec_eval:
  "dec 2024 = ''2024''" "dec (Suc 0) = ''1''" "dec 2 = ''2''" "dec 3 = ''3''"
  "dec 4 = ''4''" "dec 5 = ''5''"
  by (simp_all add: dec.simps)

lemma format_date0: "format_yyyyMMdd_HHmmss date0 = ''20240102_030405''"
  by (simp add: format_yyyyMMdd_HHmmss_def date0_def pad_def dec_eval)

text \<open>
  A start whose \<open>prepare()\<close> throws and whose clean-up meets a throwing \<open>stop()\<close>, a second
  start after it, and a stop of a running recording whose \<open>stop()\<close> throws.
\<close>

lemma failed_start_eval:
  "startRecording prepare_and_stop_throw fresh =
     \<lparr>mediaRecorder = Some 0, toneGenerator = Some (), beepRunnable = None,
      isRecording = False, outputFile = Some ''VID_$timestamp.mp4'',
      queue = [], uptime = 0, runnables = 0, created = [0], released = [],
      effects = [LogE ''RecordingService'' ''Error starting recording'',
                 LogE ''RecordingService'' ''Error stopping recording'']\<rparr>"
  by (simp add: startRecording_def startRecording_try_def prepare_and_stop_throw_def fresh_def
        outputFile_name_constant apply_calls_def stopRecording_def stopBeepTimer_def emit_def
        TAG_def Let_def)

lemma second_start_eval:
  "startRecording all_succeed (startRecording prepare_and_stop_throw fresh) =
     \<lparr>mediaRecorder = Some 1, toneGenerator = Some (), beepRunnable = Some 0,
      isRecording = True, outputFile = Some ''VID_$timestamp.mp4'',
      queue = [(0, 30000)], uptime = 0, runnables = 1, created = [0, 1], released = [],
      effects = [LogE ''RecordingService'' ''Error starting recording'',
                 LogE ''RecordingService'' ''Error stopping recording'',
                 Foreground 1 ''Recording...'',
                 LogD ''RecordingService'' ''Recording started'']\<rparr>"
  unfolding failed_start_eval
  by (simp add: startRecording_def startRecording_try_def all_succeed_def
        outputFile_name_constant apply_calls_def startBeepTimer_def postDelayed_def emit_def
        BEEP_INTERVAL_MS_def NOTIFICATION_ID_def TAG_def Let_def)

lemma failed_stop_eval:
  "stopRecording stop_throws active0 =
     \<lparr>mediaRecorder = Some 0, toneGenerator = Some (), beepRunnable = None,
      isRecording = True, outputFile = Some ''VID_$timestamp.mp4'',
      queue = [], uptime = 0, runnables = 1, created = [0], released = [],
      effects = [Foreground 1 ''Recording...'', LogD ''RecordingService'' ''Recording started'',
                 LogE ''RecordingService'' ''Error stopping recording'']\<rparr>"
  unfolding active0_eval
  by (simp add: stopRecording_def stopBeepTimer_def removeCallbacks_def stop_throws_def emit_def
        TAG_def Let_def)

lemma commands_eval:
  "commands [(Start, p)] fresh = startRecording p fresh"
  "commands [(Start, p), (Start, q)] fresh =
     (if isRecording (startRecording p fresh) then startRecording p fresh
      else startRecording q (startRecording p fresh))"
  by (simp_all add: onStartCommand_def Start_def action_def fresh_def)

lemma commands_stop_eval:
  "commands [(Start, p), (Start, q), (Stop, r)] fresh =
     emit StopSelf (stopRecording r (commands [(Start, p), (Start, q)] fresh))"
  by (simp add: onStartCommand_def Start_def Stop_def action_def
        ACTION_START_RECORDING_def ACTION_STOP_RECORDING_def)

section \<open>Commands that change nothing\<close>

text \<open>
  Claim C4. A Start command delivered while \<open>isRecording\<close> is set is a no-op: the guard
  of \<open>onStartCommand\<close> skips \<open>startRecording\<close>, so no second recorder is built, and
  \<open>outputFile\<close> and every other field of the service and of its platform are as before.
\<close>

theorem start_while_recording_is_noop: "isRecording s \<Longrightarrow> onStartCommand (Some (Some ACTION_START_RECORDING)) p s = (s, START_STICKY)"
  by (simp add: onStartCommand_def action_def)

theorem start_while_recording_is_noop_witness:
  "isRecording active0 \<and>
   onStartCommand (Some (Some ACTION_START_RECORDING)) all_succeed active0 = (active0, START_STICKY)"
proof -
  have h: "isRecording active0" by (simp add: active0_eval)
  show ?thesis using h start_while_recording_is_noop [OF h, of all_succeed] by simp
qed

text \<open>
  Claim C10. A command whose action is neither Start nor Stop, a null intent included,
  changes nothing at all and has no effect; \<open>onStartCommand\<close> returns \<open>START_STICKY\<close>,
  which is 1.
\<close>

theorem other_command_is_noop:
  "action i \<noteq> Some ACTION_START_RECORDING \<Longrightarrow> action i \<noteq> Some ACTION_STOP_RECORDING \<Longrightarrow>
     onStartCommand i p s = (s, START_STICKY) \<and> START_STICKY = 1"
  by (simp add: onStartCommand_def START_STICKY_def)

theorem other_command_is_noop_witness:
  "action None \<noteq> Some ACTION_START_RECORDING \<and> action None \<noteq> Some ACTION_STOP_RECORDING \<and>
   onStartCommand None stop_throws active0 = (active0, START_STICKY) \<and> START_STICKY = 1"
proof -
  have h1: "action None \<noteq> Some ACTION_START_RECORDING" by (simp add: action_def)
  have h2: "action None \<noteq> Some ACTION_STOP_RECORDING" by (simp add: action_def)
  show ?thesis using h1 h2 other_command_is_noop [OF h1 h2, of stop_throws active0] by simp
qed

text \<open>
  Claim C6. Stopping a service that is idle (no recorder, \<open>isRecording\<close> unset) is safe
  and idempotent: whatever the platform calls would do, none is made, the state is as
  before, no recorder is built or released, and the only report is the log line
  "Recording stopped", once per call. Delivered as a Stop command, it is followed by
  \<open>stopSelf()\<close>.
\<close>

theorem stop_when_idle:
  assumes "reachable s" "mediaRecorder s = None" "\<not> isRecording s"
  shows "stopRecording p s = emit (LogD TAG ''Recording stopped'') s \<and>
         stopRecording p' (stopRecording p s) =
           emit (LogD TAG ''Recording stopped'') (emit (LogD TAG ''Recording stopped'') s) \<and>
         onStartCommand (Some (Some ACTION_STOP_RECORDING)) p s =
           (emit StopSelf (emit (LogD TAG ''Recording stopped'') s), START_STICKY) \<and>
         held (stopRecording p s) = held s \<and> created (stopRecording p s) = created s"
proof -
  have inv: "timer_inv s" using assms(1) by (rule reachable_inv)
  have one: "stopRecording p s = emit (LogD TAG ''Recording stopped'') s" for p
    using inv assms(2,3) by (rule idle_stopRecording)
  let ?t = "emit (LogD TAG ''Recording stopped'') s"
  have "timer_inv ?t" "mediaRecorder ?t = None" "\<not> isRecording ?t"
    using inv assms(2,3) by (simp_all add: emit_fields)
  then have two: "stopRecording p' ?t = emit (LogD TAG ''Recording stopped'') ?t"
    by (rule idle_stopRecording)
  show ?thesis
    using one two
    by (simp add: onStartCommand_def action_def ACTION_START_RECORDING_def
          ACTION_STOP_RECORDING_def emit_fields)
qed

theorem stop_when_idle_witness:
  "reachable fresh \<and> mediaRecorder fresh = None \<and> \<not> isRecording fresh \<and>
   stopRecording stop_throws fresh = emit (LogD TAG ''Recording stopped'') fresh \<and>
   held (stopRecording stop_throws fresh) = held fresh"
proof -
  have h1: "reachable fresh" by (rule reach_fresh)
  have h2: "mediaRecorder fresh = None" by (simp add: fresh_def)
  have h3: "\<not> isRecording fresh" by (simp add: fresh_def)
  show ?thesis using h1 h2 h3 stop_when_idle [OF h1 h2 h3, of stop_throws all_succeed] by blast
qed

section \<open>The beep timer\<close>

text \<open>
  Claim C7. After any stop, no tick fires: whatever state the service has reached, and
  whether or not \<open>MediaRecorder.stop()\<close> throws, \<open>stopRecording\<close> leaves the handler's queue
  empty and no runnable current, because \<open>stopBeepTimer\<close> runs before the recorder is
  touched. The looper then has nothing to deliver, however long it runs, and the Stop
  command itself plays no tone.
\<close>

theorem no_tick_after_stop:
  assumes "reachable s"
  shows "queue (stopRecording p s) = [] \<and> beepRunnable (stopRecording p s) = None \<and>
         looper_step (stopRecording p s) = None \<and>
         ticks (Suc k) (fst (onStartCommand (Some (Some ACTION_STOP_RECORDING)) p s)) = None \<and>
         filter is_tone (effects (fst (onStartCommand (Some (Some ACTION_STOP_RECORDING)) p s))) =
           filter is_tone (effects s)"
proof -
  have inv: "timer_inv s" using assms by (rule reachable_inv)
  have q: "queue (stopRecording p s) = []" and b: "beepRunnable (stopRecording p s) = None"
    using stopRecording_timer [OF inv, of p] by simp_all
  have cmd: "fst (onStartCommand (Some (Some ACTION_STOP_RECORDING)) p s) =
               emit StopSelf (stopRecording p s)"
    by (simp add: onStartCommand_def action_def ACTION_START_RECORDING_def
          ACTION_STOP_RECORDING_def)
  show ?thesis
    using q b stopRecording_tones [of p s]
    by (simp add: cmd looper_step_def) (simp add: emit_def is_tone_def)
qed

theorem no_tick_after_stop_witness:
  "reachable active0 \<and> queue active0 = [(0, 30000)] \<and>
   queue (stopRecording stop_throws active0) = [] \<and>
   looper_step (stopRecording stop_throws active0) = None"
proof -
  have h: "reachable active0" unfolding active0_def by (rule reach_command [OF reach_fresh])
  have q: "queue active0 = [(0, 30000)]" by (simp add: active0_eval)
  show ?thesis using h q no_tick_after_stop [OF h, of stop_throws 0] by simp
qed

lemma looper_step_single:
  assumes "queue t = [(r, due)]" "uptime t \<le> due" "toneGenerator t = Some ()"
  shows "\<exists>t1. looper_step t = Some t1 \<and> effects t1 = effects t @ [Tone due] \<and>
           queue t1 = [(r, due + BEEP_INTERVAL_MS)] \<and> uptime t1 = due \<and>
           toneGenerator t1 = Some ()"
  using assms
  by (simp add: looper_step_def run_def postDelayed_def playBeep_def emit_def max_def)

lemma ticks_single:
  "queue t = [(r, due)] \<Longrightarrow> uptime t \<le> due \<Longrightarrow> toneGenerator t = Some () \<Longrightarrow>
     \<exists>t'. ticks k t = Some t' \<and>
          effects t' = effects t @ map (\<lambda>i. Tone (due + i * BEEP_INTERVAL_MS)) [0..<k] \<and>
          queue t' = [(r, due + k * BEEP_INTERVAL_MS)]"
proof (induction k arbitrary: t due)
  case 0
  then show ?case by simp
next
  case (Suc k)
  from looper_step_single [OF Suc.prems] obtain t1 where
    step: "looper_step t = Some t1" and e1: "effects t1 = effects t @ [Tone due]" and
    q1: "queue t1 = [(r, due + BEEP_INTERVAL_MS)]" and u1: "uptime t1 = due" and
    g1: "toneGenerator t1 = Some ()"
    by blast
  have "uptime t1 \<le> due + BEEP_INTERVAL_MS" using u1 by simp
  from Suc.IH [OF q1 this g1] obtain t' where
    run: "ticks k t1 = Some t'" and
    e: "effects t' = effects t1 @ map (\<lambda>i. Tone (due + BEEP_INTERVAL_MS + i * BEEP_INTERVAL_MS)) [0..<k]" and
    q: "queue t' = [(r, due + BEEP_INTERVAL_MS + k * BEEP_INTERVAL_MS)]"
    by blast
  have "ticks (Suc k) t = Some t'" using step run by simp
  moreover have "effects t' = effects t @ map (\<lambda>i. Tone (due + i * BEEP_INTERVAL_MS)) [0..<Suc k]"
    using e e1 by (simp add: map_upt_Suc add.assoc del: upt_Suc)
  moreover have "queue t' = [(r, due + Suc k * BEEP_INTERVAL_MS)]"
    using q by (simp add: add.assoc)
  ultimately show ?case by blast
qed

text \<open>
  Claim C8. Started on an empty queue, the timer plays no tone at once and files one
  message, due a full interval later. Each turn of the looper then plays one tone and
  files the next message one interval on: after \<open>k\<close> turns the tones are those at
  1, 2, ..., \<open>k\<close> intervals after the start, and the next is due at \<open>k + 1\<close> intervals.
\<close>

theorem beep_schedule:
  assumes "queue s = []" "toneGenerator s = Some ()"
  shows "effects (startBeepTimer s) = effects s \<and>
         queue (startBeepTimer s) = [(runnables s, uptime s + BEEP_INTERVAL_MS)] \<and>
         (\<exists>s'. ticks k (startBeepTimer s) = Some s' \<and>
            effects s' = effects s @ map (\<lambda>i. Tone (uptime s + Suc i * BEEP_INTERVAL_MS)) [0..<k] \<and>
            queue s' = [(runnables s, uptime s + Suc k * BEEP_INTERVAL_MS)])"
proof -
  let ?t = "startBeepTimer s"
  have e: "effects ?t = effects s" and
    q: "queue ?t = [(runnables s, uptime s + BEEP_INTERVAL_MS)]" and
    u: "uptime ?t \<le> uptime s + BEEP_INTERVAL_MS" and g: "toneGenerator ?t = Some ()"
    using assms by (simp_all add: startBeepTimer_def postDelayed_def Let_def)
  from ticks_single [OF q u g, of k] obtain s' where
    "ticks k ?t = Some s'"
    "effects s' = effects ?t @ map (\<lambda>i. Tone (uptime s + BEEP_INTERVAL_MS + i * BEEP_INTERVAL_MS)) [0..<k]"
    "queue s' = [(runnables s, uptime s + BEEP_INTERVAL_MS + k * BEEP_INTERVAL_MS)]"
    by blast
  then have "ticks k ?t = Some s' \<and>
      effects s' = effects s @ map (\<lambda>i. Tone (uptime s + Suc i * BEEP_INTERVAL_MS)) [0..<k] \<and>
      queue s' = [(runnables s, uptime s + Suc k * BEEP_INTERVAL_MS)]"
    using e by (simp add: add.assoc)
  then show ?thesis using e q by blast
qed

theorem beep_schedule_witness:
  "queue fresh = [] \<and> toneGenerator fresh = Some () \<and>
   effects (startBeepTimer fresh) = [] \<and>
   (\<exists>s'. ticks 3 (startBeepTimer fresh) = Some s' \<and>
      effects s' = [Tone 30000, Tone 60000, Tone 90000] \<and> queue s' = [(0, 120000)])"
proof -
  have h1: "queue fresh = []" by (simp add: fresh_def)
  have h2: "toneGenerator fresh = Some ()" by (simp add: fresh_def)
  have three: "[0..<3] = [0, 1, 2]" by (simp add: upt_rec)
  show ?thesis
    using h1 h2 beep_schedule [OF h1 h2, of 3]
    by (simp add: three fresh_def BEEP_INTERVAL_MS_def)
qed

section \<open>Releasing the recorder\<close>

text \<open>
  Claim C2. The claim is that \<open>stopRecording\<close> always ends with \<open>mediaRecorder\<close> null,
  \<open>isRecording\<close> unset and no recorder held, even when \<open>MediaRecorder.stop()\<close> throws.
  At a running recording whose \<open>stop()\<close> throws, the code skips \<open>reset()\<close>, \<open>release()\<close> and
  both assignments: the recorder stays held and unreleased, \<open>mediaRecorder\<close> still points to
  it and \<open>isRecording\<close> is still set. Only the timer is cancelled, and the error is logged.
\<close>

theorem failed_stop_keeps_recorder:
  "mediaRecorder active0 = Some 0 \<and> isRecording active0 \<and> held active0 = [0] \<and>
   mediaRecorder (stopRecording stop_throws active0) = Some 0 \<and>
   isRecording (stopRecording stop_throws active0) \<and>
   released (stopRecording stop_throws active0) = [] \<and>
   held (stopRecording stop_throws active0) = [0] \<and>
   beepRunnable (stopRecording stop_throws active0) = None \<and>
   effects (stopRecording stop_throws active0) =
     effects active0 @ [LogE TAG ''Error stopping recording'']"
  by (simp add: failed_stop_eval held_def TAG_def) (simp add: active0_eval)

text \<open>
  Claim C3. The claim is that a failed start releases what was acquired and leaves no
  recorder held. When \<open>prepare()\<close> throws, the \<open>catch\<close> calls \<open>stopRecording\<close>, which calls
  \<open>stop()\<close> on a recorder that never started; when that throws too, \<open>release()\<close> is never
  reached: the recorder built by this start stays held while \<open>isRecording\<close> is unset.
\<close>

theorem failed_start_keeps_recorder:
  "mediaRecorder (startRecording prepare_and_stop_throw fresh) = Some 0 \<and>
   \<not> isRecording (startRecording prepare_and_stop_throw fresh) \<and>
   released (startRecording prepare_and_stop_throw fresh) = [] \<and>
   held (startRecording prepare_and_stop_throw fresh) = [0] \<and>
   effects (startRecording prepare_and_stop_throw fresh) =
     [LogE TAG ''Error starting recording'', LogE TAG ''Error stopping recording'']"
  by (simp add: failed_start_eval held_def TAG_def)

text \<open>
  Claim C1. The claim is that every recorder is released exactly once and that, between
  commands, at most one is held, and only while recording. After the failed start of
  claim C3 one recorder is held while the service is not recording; the next start
  overwrites \<open>mediaRecorder\<close> with a second recorder, so that two are held; a stop that
  succeeds then releases the second only, and the service is idle with the first still
  held.
\<close>

theorem leaked_recorder_after_failed_start:
  "\<not> isRecording (commands [(Start, prepare_and_stop_throw)] fresh) \<and>
   held (commands [(Start, prepare_and_stop_throw)] fresh) = [0] \<and>
   isRecording (commands [(Start, prepare_and_stop_throw), (Start, all_succeed)] fresh) \<and>
   mediaRecorder (commands [(Start, prepare_and_stop_throw), (Start, all_succeed)] fresh) = Some 1 \<and>
   held (commands [(Start, prepare_and_stop_throw), (Start, all_succeed)] fresh) = [0, 1] \<and>
   released (commands [(Start, prepare_and_stop_throw), (Start, all_succeed)] fresh) = [] \<and>
   \<not> isRecording
     (commands [(Start, prepare_and_stop_throw), (Start, all_succeed), (Stop, all_succeed)] fresh) \<and>
   mediaRecorder
     (commands [(Start, prepare_and_stop_throw), (Start, all_succeed), (Stop, all_succeed)] fresh) =
     None \<and>
   released
     (commands [(Start, prepare_and_stop_throw), (Start, all_succeed), (Stop, all_succeed)] fresh) =
     [1] \<and>
   held
     (commands [(Start, prepare_and_stop_throw), (Start, all_succeed), (Stop, all_succeed)] fresh) =
     [0]"
  unfolding commands_stop_eval commands_eval
  apply (simp add: failed_start_eval held_def)
  apply (simp add: second_start_eval [unfolded failed_start_eval])
  apply (simp add: stopRecording_def stopBeepTimer_def removeCallbacks_def all_succeed_def
           emit_def Let_def)
  done

section \<open>The name of the output file\<close>

text \<open>
  Claim C9. The claim is that the file is named \<open>VID_\<close>, the time stamp as
  \<open>yyyyMMdd_HHmmss\<close>, \<open>.mp4\<close>. At 2024-01-02 03:04:05 the time stamp is formatted as
  \<open>20240102_030405\<close>, but the file of a successful start is named \<open>VID_$timestamp.mp4\<close>,
  as at every other time. The same line of the first installer, without the backslash,
  gives \<open>VID_20240102_030405.mp4\<close>.
\<close>

theorem output_name_ignores_timestamp:
  "format_yyyyMMdd_HHmmss date0 = ''20240102_030405'' \<and>
   outputFile_name date0 = ''VID_$timestamp.mp4'' \<and>
   outputFile (startRecording all_succeed fresh) = Some ''VID_$timestamp.mp4'' \<and>
   kt_template (scope (format_yyyyMMdd_HHmmss date0)) (py_literal ''VID_$timestamp.mp4'') =
     ''VID_20240102_030405.mp4''"
  using first_installer_name [of "format_yyyyMMdd_HHmmss date0"]
  by (simp add: outputFile_name_constant start_all_succeed format_date0)

section \<open>The permission gate\<close>

lemma all_checked_result:
  "fst (all_checked g xs a) = list_all g xs \<and>
   (\<exists>cs. snd (all_checked g xs a) = a\<lparr>checks := cs\<rparr>)"
proof (induction xs arbitrary: a)
  case Nil
  have "a = a\<lparr>checks := checks a\<rparr>" by simp
  then show ?case by (auto intro: exI [of _ "checks a"])
next
  case (Cons x xs)
  show ?case
  proof (cases "g x")
    case True
    from Cons.IH [of "a\<lparr>checks := checks a @ [x]\<rparr>"] obtain cs where
      "fst (all_checked g xs (a\<lparr>checks := checks a @ [x]\<rparr>)) = list_all g xs"
      "snd (all_checked g xs (a\<lparr>checks := checks a @ [x]\<rparr>)) = a\<lparr>checks := cs\<rparr>"
      by auto
    with True show ?thesis by (auto simp: Let_def)
  next
    case False
    then show ?thesis by (auto simp: Let_def)
  qed
qed

lemma allPermissionsGranted_result:
  "\<exists>cs. allPermissionsGranted g a =
     (list_all g REQUIRED_PERMISSIONS, a\<lparr>gate_queries := Suc (gate_queries a), checks := cs\<rparr>)"
proof -
  let ?a = "a\<lparr>gate_queries := Suc (gate_queries a)\<rparr>"
  from all_checked_result [of g REQUIRED_PERMISSIONS ?a] obtain cs where
    "fst (all_checked g REQUIRED_PERMISSIONS ?a) = list_all g REQUIRED_PERMISSIONS"
    "snd (all_checked g REQUIRED_PERMISSIONS ?a) = ?a\<lparr>checks := cs\<rparr>"
    by blast
  then have "allPermissionsGranted g a = (list_all g REQUIRED_PERMISSIONS, ?a\<lparr>checks := cs\<rparr>)"
    by (simp add: allPermissionsGranted_def prod_eq_iff)
  then show ?thesis by blast
qed

text \<open>
  Claim C5, as stated, fails: the gate is not asked once per start request. With every
  permission granted, the record button is pressed three times (start, stop, start) and
  \<open>allPermissionsGranted()\<close> has run once, in \<open>onCreate\<close>. With a permission missing, a press
  of the button reports nothing and sends nothing.
\<close>

theorem permission_gate_not_per_start:
  "sent (btnRecord_click (btnRecord_click (btnRecord_click
      (MainActivity_onCreate all_granted new_activity)))) =
     [ACTION_START_RECORDING, ACTION_STOP_RECORDING, ACTION_START_RECORDING] \<and>
   gate_queries (MainActivity_onCreate all_granted new_activity) = 1 \<and>
   gate_queries (btnRecord_click (btnRecord_click (btnRecord_click
      (MainActivity_onCreate all_granted new_activity)))) = 1 \<and>
   toasts (btnRecord_click (MainActivity_onCreate no_audio new_activity)) = [] \<and>
   sent (btnRecord_click (MainActivity_onCreate no_audio new_activity)) = []"
  by (simp add: MainActivity_onCreate_def allPermissionsGranted_def REQUIRED_PERMISSIONS_def
        all_granted_def no_audio_def new_activity_def setupUI_def updateRecordingStatus_def
        btnRecord_click_def MainActivity_startRecording_def MainActivity_stopRecording_def
        toast_def Let_def)

text \<open>
  Claim C5, amended. The gate is asked when the activity is created and when a
  permission request returns, not at a start request. While a required permission is
  missing, \<open>onCreate\<close> asks once, requests the permissions and sets no listener on the
  record button: a press changes nothing, no command is sent to the service and nothing
  is reported. A permission request that returns with a permission still missing shows
  "Permissions required" and finishes the activity, and sends no command. A start
  request itself never asks the gate.
\<close>

theorem permission_gate_at_creation:
  assumes "\<not> list_all g REQUIRED_PERMISSIONS"
  shows "\<not> btnRecord_listener (MainActivity_onCreate g new_activity) \<and>
         btnRecord_click (MainActivity_onCreate g new_activity) = MainActivity_onCreate g new_activity \<and>
         sent (MainActivity_onCreate g new_activity) = [] \<and>
         toasts (MainActivity_onCreate g new_activity) = [] \<and>
         gate_queries (MainActivity_onCreate g new_activity) = 1 \<and>
         permission_requests (MainActivity_onCreate g new_activity) = 1 \<and>
         finishing (onRequestPermissionsResult REQUEST_CODE_PERMISSIONS g a) \<and>
         toasts (onRequestPermissionsResult REQUEST_CODE_PERMISSIONS g a) =
           toasts a @ [''Permissions required''] \<and>
         sent (onRequestPermissionsResult REQUEST_CODE_PERMISSIONS g a) = sent a \<and>
         gate_queries (MainActivity_startRecording a) = gate_queries a \<and>
         checks (MainActivity_startRecording a) = checks a"
proof -
  obtain cs where c: "allPermissionsGranted g new_activity =
      (False, new_activity\<lparr>gate_queries := Suc (gate_queries new_activity), checks := cs\<rparr>)"
    using allPermissionsGranted_result [of g new_activity] assms by auto
  obtain ds where d: "allPermissionsGranted g a =
      (False, a\<lparr>gate_queries := Suc (gate_queries a), checks := ds\<rparr>)"
    using allPermissionsGranted_result [of g a] assms by auto
  have create: "MainActivity_onCreate g new_activity =
      new_activity\<lparr>gate_queries := 1, checks := cs, permission_requests := 1\<rparr>"
    unfolding MainActivity_onCreate_def c by (simp add: new_activity_def)
  have result: "onRequestPermissionsResult REQUEST_CODE_PERMISSIONS g a =
      (toast ''Permissions required'' (a\<lparr>gate_queries := Suc (gate_queries a), checks := ds\<rparr>))
        \<lparr>finishing := True\<rparr>"
    by (simp add: onRequestPermissionsResult_def d)
  have start: "gate_queries (MainActivity_startRecording a) = gate_queries a \<and>
      checks (MainActivity_startRecording a) = checks a"
    by (simp add: MainActivity_startRecording_def toast_def updateRecordingStatus_def)
  show ?thesis
    unfolding create result using start
    by (simp add: btnRecord_click_def new_activity_def toast_def)
qed

theorem permission_gate_at_creation_witness:
  "\<not> list_all no_audio REQUIRED_PERMISSIONS \<and>
   \<not> btnRecord_listener (MainActivity_onCreate no_audio new_activity) \<and>
   btnRecord_click (MainActivity_onCreate no_audio new_activity) =
     MainActivity_onCreate no_audio new_activity \<and>
   sent (MainActivity_onCreate no_audio new_activity) = []"
proof -
  have h: "\<not> list_all no_audio REQUIRED_PERMISSIONS"
    by (simp add: no_audio_def REQUIRED_PERMISSIONS_def)
  show ?thesis using h permission_gate_at_creation [OF h, of new_activity] by blast
qed

end
